theory Spec2Isabelle
  imports Complex_Main
begin

section \<open>The platform's numbers\<close>

text \<open>
  The component computes with the Number type of its platform: IEEE 754 binary64 with
  round-to-nearest, ties-to-even. A finite value is kept as its sign and its exact
  magnitude (a rational), so that \<open>+0\<close> and \<open>-0\<close> are distinct values; every operation
  computes the exact rational result and rounds it to the nearest representable value.
\<close>

datatype jsnum = NaN | Infinity bool | Finite bool rat

function bitlen :: "int \<Rightarrow> int" where
  "bitlen n = (if n \<le> 0 then 0 else bitlen (n div 2) + 1)"
  by pat_completeness auto
termination
  by (relation "measure nat") auto

declare bitlen.simps [simp del]

definition pow2 :: "int \<Rightarrow> rat" where
  "pow2 e = (if 0 \<le> e then 2 ^ nat e else 1 / 2 ^ nat (- e))"

definition pow10 :: "int \<Rightarrow> rat" where
  "pow10 e = (if 0 \<le> e then 10 ^ nat e else 1 / 10 ^ nat (- e))"

definition floor_log2 :: "rat \<Rightarrow> int" where
  "floor_log2 m =
     (let (p, q) = quotient_of m;
          d = bitlen p - bitlen q
      in if pow2 d \<le> m then d else d - 1)"

definition round_half_even :: "rat \<Rightarrow> int" where
  "round_half_even q =
     (let n = \<lfloor>q\<rfloor>; r = q - of_int n
      in if r < 1 / 2 then n else if 1 / 2 < r then n + 1
         else if even n then n else n + 1)"

text \<open>
  Rounding a non-negative magnitude: the spacing of representable values around \<open>m\<close> is
  \<open>2 ^ (e - 52)\<close> where \<open>e\<close> is the binary exponent of \<open>m\<close>, never below that of the
  subnormal range; a result of \<open>2 ^ 1024\<close> or more overflows to infinity.
\<close>

definition to_double :: "bool \<Rightarrow> rat \<Rightarrow> jsnum" where
  "to_double neg m =
     (if m = 0 then Finite neg 0
      else let e = max (floor_log2 m) (- 1022);
               ulp = pow2 (e - 52);
               r = of_int (round_half_even (m / ulp)) * ulp
           in if e < 1023 then Finite neg r
              else if pow2 1024 \<le> r then Infinity neg else Finite neg r)"

definition signed :: "bool \<Rightarrow> rat \<Rightarrow> rat" where
  "signed neg m = (if neg then - m else m)"

fun negate :: "jsnum \<Rightarrow> jsnum" where
  "negate NaN = NaN"
| "negate (Infinity a) = Infinity (\<not> a)"
| "negate (Finite a x) = Finite (\<not> a) x"

fun add :: "jsnum \<Rightarrow> jsnum \<Rightarrow> jsnum" where
  "add NaN _ = NaN"
| "add _ NaN = NaN"
| "add (Infinity a) (Infinity b) = (if a = b then Infinity a else NaN)"
| "add (Infinity a) (Finite _ _) = Infinity a"
| "add (Finite _ _) (Infinity b) = Infinity b"
| "add (Finite a x) (Finite b y) =
     (let r = signed a x + signed b y
      in if r = 0 then Finite (a \<and> b) 0 else to_double (r < 0) \<bar>r\<bar>)"

definition subtract :: "jsnum \<Rightarrow> jsnum \<Rightarrow> jsnum" where
  "subtract x y = add x (negate y)"

fun multiply :: "jsnum \<Rightarrow> jsnum \<Rightarrow> jsnum" where
  "multiply NaN _ = NaN"
| "multiply _ NaN = NaN"
| "multiply (Infinity a) (Infinity b) = Infinity (a \<noteq> b)"
| "multiply (Infinity a) (Finite b y) = (if y = 0 then NaN else Infinity (a \<noteq> b))"
| "multiply (Finite a x) (Infinity b) = (if x = 0 then NaN else Infinity (a \<noteq> b))"
| "multiply (Finite a x) (Finite b y) = to_double (a \<noteq> b) (x * y)"

fun divide_js :: "jsnum \<Rightarrow> jsnum \<Rightarrow> jsnum" where
  "divide_js NaN _ = NaN"
| "divide_js _ NaN = NaN"
| "divide_js (Infinity a) (Infinity b) = NaN"
| "divide_js (Infinity a) (Finite b y) = Infinity (a \<noteq> b)"
| "divide_js (Finite a x) (Infinity b) = Finite (a \<noteq> b) 0"
| "divide_js (Finite a x) (Finite b y) =
     (if y = 0 then (if x = 0 then NaN else Infinity (a \<noteq> b))
      else to_double (a \<noteq> b) (x / y))"

subsection \<open>Number to string\<close>

definition digit_char :: "int \<Rightarrow> char" where
  "digit_char d = ''0123456789'' ! nat d"

function digits_of :: "int \<Rightarrow> string" where
  "digits_of n =
     (if n < 10 then [digit_char n] else digits_of (n div 10) @ [digit_char (n mod 10)])"
  by pat_completeness auto
termination
  by (relation "measure nat") auto

declare digits_of.simps [simp del]

definition floor_log10 :: "rat \<Rightarrow> int" where
  "floor_log10 x =
     (let (p, q) = quotient_of x;
          d = int (length (digits_of p)) - int (length (digits_of q))
      in if pow10 d \<le> x then d else d - 1)"

definition roundtrips :: "rat \<Rightarrow> rat \<Rightarrow> bool" where
  "roundtrips x v = (to_double False v = Finite False x)"

text \<open>
  \<open>shortest x k\<close> looks for the decimal \<open>s * 10 ^ t\<close> with the fewest significant digits
  (at least \<open>k\<close>) that rounds back to \<open>x\<close>; of the two candidates next to \<open>x\<close> it takes
  the closer one, the even one at a tie. Seventeen digits always suffice for a binary64
  value, so the search stops there.
\<close>

function shortest :: "rat \<Rightarrow> nat \<Rightarrow> int \<times> int" where
  "shortest x k =
     (let t = floor_log10 x - int k + 1;
          lo = \<lfloor>x / pow10 t\<rfloor>;
          hi = lo + 1;
          vlo = of_int lo * pow10 t;
          vhi = of_int hi * pow10 t;
          oklo = roundtrips x vlo;
          okhi = roundtrips x vhi
      in if 17 \<le> k \<or> oklo \<or> okhi then
           (if oklo = okhi then
              (if x - vlo < vhi - x then (lo, t)
               else if vhi - x < x - vlo then (hi, t)
               else if even lo then (lo, t) else (hi, t))
            else if oklo then (lo, t) else (hi, t))
         else shortest x (k + 1))"
  by pat_completeness auto
termination
  by (relation "measure (\<lambda>(x, k). 17 - k)") auto

declare shortest.simps [simp del]

function strip_zeros :: "int \<Rightarrow> int \<Rightarrow> int \<times> int" where
  "strip_zeros s t =
     (if 0 < s \<and> s mod 10 = 0 then strip_zeros (s div 10) (t + 1) else (s, t))"
  by pat_completeness auto
termination
  by (relation "measure (\<lambda>(s, t). nat s)") auto

declare strip_zeros.simps [simp del]

definition format_decimal :: "string \<Rightarrow> int \<Rightarrow> string" where
  "format_decimal ds n =
     (let k = int (length ds)
      in if k \<le> n \<and> n \<le> 21 then ds @ replicate (nat (n - k)) (CHR ''0'')
         else if 0 < n \<and> n \<le> 21 then take (nat n) ds @ ''.'' @ drop (nat n) ds
         else if - 6 < n \<and> n \<le> 0 then ''0.'' @ replicate (nat (- n)) (CHR ''0'') @ ds
         else let e = n - 1;
                  es = (if e < 0 then ''-'' else ''+'') @ digits_of \<bar>e\<bar>
              in if k = 1 then ds @ ''e'' @ es
                 else take 1 ds @ ''.'' @ drop 1 ds @ ''e'' @ es)"

text \<open>
  \<open>String(x)\<close> on a number: the shortest decimal that reads back as \<open>x\<close>, written with
  its digits \<open>ds\<close> and the position \<open>n\<close> of the decimal point: plain digits up to
  \<open>10 ^ 21\<close>, leading zeros down to \<open>10 ^ -7\<close>, exponent notation beyond. Both zeros
  print as \<open>0\<close>.
\<close>

fun String :: "jsnum \<Rightarrow> string" where
  "String NaN = ''NaN''"
| "String (Infinity neg) = (if neg then ''-Infinity'' else ''Infinity'')"
| "String (Finite neg x) =
     (if x = 0 then ''0''
      else (if neg then ''-'' else []) @
           (let (s0, t0) = shortest x 1;
                (s, t) = strip_zeros s0 t0;
                ds = digits_of s
            in format_decimal ds (t + int (length ds))))"

text \<open>
  \<open>x.toFixed(f)\<close>: more than 100 fraction digits are refused with a \<open>RangeError\<close>, before
  anything else is looked at. A value that is not finite prints as \<open>String\<close> prints it,
  one of magnitude \<open>10 ^ 21\<close> or more too; otherwise the magnitude is rounded to \<open>f\<close>
  fraction digits, the larger neighbour at a tie, and padded with zeros. The minus sign is
  kept for every negative value but not for \<open>-0\<close>.
\<close>

datatype error = RangeError

definition toFixed :: "jsnum \<Rightarrow> nat \<Rightarrow> error + string" where
  "toFixed x f =
     (if 100 < f then Inl RangeError
      else case x of
        NaN \<Rightarrow> Inr (String x)
      | Infinity neg \<Rightarrow> Inr (String x)
      | Finite neg m \<Rightarrow>
          Inr ((if neg \<and> m \<noteq> 0 then ''-'' else []) @
               (if pow10 21 \<le> m then String (Finite False m)
                else let n = \<lfloor>m * 10 ^ f + 1 / 2\<rfloor>;
                         ms = digits_of n
                     in if f = 0 then ms
                        else let mz = (if length ms \<le> f
                                       then replicate (f + 1 - length ms) (CHR ''0'') @ ms
                                       else ms);
                                 k = length mz
                             in take (k - f) mz @ ''.'' @ drop (k - f) mz)))"

subsection \<open>String to number\<close>

text \<open>
  \<open>Number(str)\<close> on a string: white space around the numeral is dropped; the empty string
  is \<open>+0\<close>; a numeral is \<open>Infinity\<close> or a decimal numeral with an optional sign, an
  optional fraction and an optional exponent, or an unsigned binary, octal or hexadecimal
  integer after \<open>0b\<close>, \<open>0o\<close>, \<open>0x\<close>; anything else is \<open>NaN\<close>. The value of the numeral
  is rounded to the nearest representable number. Characters are 8-bit code units here;
  the strings of the component are made of ASCII characters only.
\<close>

definition is_digit :: "char \<Rightarrow> bool" where
  "is_digit c = (c \<in> set ''0123456789'')"

definition digit_value :: "char \<Rightarrow> int" where
  "digit_value c =
     (let n = of_char c
      in if 48 \<le> n \<and> n \<le> 57 then n - 48
         else if 97 \<le> n \<and> n \<le> 102 then n - 87
         else n - 55)"

definition digits_value :: "int \<Rightarrow> string \<Rightarrow> int" where
  "digits_value base ds = foldl (\<lambda>a c. base * a + digit_value c) 0 ds"

definition is_space :: "char \<Rightarrow> bool" where
  "is_space c = (of_char c \<in> set [9, 10, 11, 12, 13, 32, 160 :: int])"

definition trim :: "string \<Rightarrow> string" where
  "trim s = rev (dropWhile is_space (rev (dropWhile is_space s)))"

definition parse_exponent :: "string \<Rightarrow> int option" where
  "parse_exponent s =
     (case s of
        [] \<Rightarrow> Some 0
      | c # r \<Rightarrow>
          if c = CHR ''e'' \<or> c = CHR ''E'' then
            (let (neg, ds) =
                   (case r of
                      [] \<Rightarrow> (False, [])
                    | d # r' \<Rightarrow>
                        if d = CHR ''-'' then (True, r')
                        else if d = CHR ''+'' then (False, r') else (False, r))
             in if ds \<noteq> [] \<and> list_all is_digit ds
                then Some (if neg then - digits_value 10 ds else digits_value 10 ds)
                else None)
          else None)"

definition parse_unsigned_decimal :: "string \<Rightarrow> rat option" where
  "parse_unsigned_decimal s =
     (let ip = takeWhile is_digit s;
          r1 = dropWhile is_digit s;
          (fp, r2) =
            (case r1 of
               [] \<Rightarrow> ([], [])
             | c # r \<Rightarrow>
                 if c = CHR ''.'' then (takeWhile is_digit r, dropWhile is_digit r)
                 else ([], r1))
      in if ip = [] \<and> fp = [] then None
         else case parse_exponent r2 of
                None \<Rightarrow> None
              | Some e \<Rightarrow>
                  Some (of_int (digits_value 10 (ip @ fp)) * pow10 (e - int (length fp))))"

definition parse_nondecimal :: "string \<Rightarrow> int option" where
  "parse_nondecimal s =
     (case s of
        z # p # ds \<Rightarrow>
          if z = CHR ''0'' \<and> ds \<noteq> [] then
            (if (p = CHR ''x'' \<or> p = CHR ''X'') \<and>
                list_all (\<lambda>c. c \<in> set ''0123456789abcdefABCDEF'') ds
             then Some (digits_value 16 ds)
             else if (p = CHR ''o'' \<or> p = CHR ''O'') \<and>
                list_all (\<lambda>c. c \<in> set ''01234567'') ds
             then Some (digits_value 8 ds)
             else if (p = CHR ''b'' \<or> p = CHR ''B'') \<and>
                list_all (\<lambda>c. c \<in> set ''01'') ds
             then Some (digits_value 2 ds)
             else None)
          else None
      | _ \<Rightarrow> None)"

definition Number :: "string \<Rightarrow> jsnum" where
  "Number str =
     (let s = trim str
      in if s = [] then Finite False 0
         else case parse_nondecimal s of
                Some n \<Rightarrow> to_double False (of_int n)
              | None \<Rightarrow>
                  (let (neg, u) =
                         (case s of
                            [] \<Rightarrow> (False, [])
                          | c # r \<Rightarrow>
                              if c = CHR ''-'' then (True, r)
                              else if c = CHR ''+'' then (False, r) else (False, s))
                   in if u = ''Infinity'' then Infinity neg
                      else case parse_unsigned_decimal u of
                             None \<Rightarrow> NaN
                           | Some v \<Rightarrow> to_double neg v))"

section \<open>The calculator component\<close>

text \<open>
  The keys of the \<open>OPERATIONS\<close> table are the five operator symbols
  \<open>+\<close>, \<open>-\<close>, \<open>*\<close>, \<open>/\<close> and \<open>=\<close>; \<open>calculate\<close> is only ever called with one of them.
\<close>

datatype operator = Plus | Minus | Times | Divide | Equals

fun OPERATIONS :: "operator \<Rightarrow> jsnum \<Rightarrow> jsnum \<Rightarrow> jsnum" where
  "OPERATIONS Plus previous next = add previous next"
| "OPERATIONS Minus previous next = subtract previous next"
| "OPERATIONS Times previous next = multiply previous next"
| "OPERATIONS Divide previous next = divide_js previous next"
| "OPERATIONS Equals previous next = next"

text \<open>
  The seven state cells of the component. A handler reads the cells of the current render
  and schedules new contents; the next render sees all of them at once. So a handler is a
  function from the state it reads to the state it leaves. \<open>None\<close> is \<open>null\<close>.
\<close>

record state =
  displayValue :: string
  isDirty :: bool
  isPending :: bool
  "value" :: "jsnum option"
  operator :: operator
  previousValue :: "jsnum option"
  previousOperator :: operator

definition initial :: state where
  "initial =
     \<lparr>displayValue = ''0'', isDirty = False, isPending = False, value = None,
      operator = Equals, previousValue = None, previousOperator = Equals\<rparr>"

text \<open>\<open>x === 0.0\<close>: both zeros compare equal to zero, \<open>NaN\<close> to nothing.\<close>

fun is_zero :: "jsnum \<Rightarrow> bool" where
  "is_zero (Finite _ m) = (m = 0)"
| "is_zero _ = False"

text \<open>\<open>x || 0\<close>: the falsy numbers are the two zeros and \<open>NaN\<close>; \<open>null\<close> is falsy too.\<close>

fun falsy :: "jsnum \<Rightarrow> bool" where
  "falsy NaN = True"
| "falsy (Infinity _) = False"
| "falsy (Finite _ m) = (m = 0)"

definition or_zero :: "jsnum option \<Rightarrow> jsnum" where
  "or_zero v =
     (case v of None \<Rightarrow> Finite False 0 | Some x \<Rightarrow> if falsy x then Finite False 0 else x)"

definition reset :: "state \<Rightarrow> state" where
  "reset s =
     s\<lparr>displayValue := ''0'', isDirty := False, isPending := False, value := None,
       operator := Equals, previousValue := None, previousOperator := Equals\<rparr>"

definition clear :: "state \<Rightarrow> state" where
  "clear s =
     (let s1 = s\<lparr>displayValue := ''0'', isDirty := False\<rparr>
      in if operator s \<noteq> Equals then s1\<lparr>isPending := True\<rparr> else s1)"

definition changeSign :: "state \<Rightarrow> state" where
  "changeSign s =
     (if isPending s \<and> operator s \<noteq> Equals then
        s\<lparr>displayValue := ''-0'', isDirty := True, isPending := False\<rparr>
      else
        let s1 = (if take 1 (displayValue s) = ''-''
                  then s\<lparr>displayValue := drop 1 (displayValue s)\<rparr>
                  else s\<lparr>displayValue := ''-'' @ displayValue s\<rparr>)
        in if displayValue s \<notin> set [''0'', ''-0''] then s1\<lparr>isDirty := True\<rparr> else s1)"

text \<open>\<open>displayValue.replace(/^-?\d*\.?/, '')\<close>: what is left after an optional minus sign,
  the digits that follow it and an optional dot.\<close>

definition decimalPart :: "string \<Rightarrow> string" where
  "decimalPart d =
     (let d1 = (if take 1 d = ''-'' then drop 1 d else d);
          d2 = dropWhile is_digit d1
      in if take 1 d2 = ''.'' then drop 1 d2 else d2)"

definition handlePercent :: "state \<Rightarrow> error + state" where
  "handlePercent s =
     (let number = Number (displayValue s)
      in if is_zero number then Inr s
         else let newValue = divide_js number (Finite False 100)
              in case toFixed newValue (length (decimalPart (displayValue s)) + 2) of
                   Inl e \<Rightarrow> Inl e
                 | Inr str \<Rightarrow> Inr (s\<lparr>displayValue := str, isDirty := True\<rparr>))"

definition calculateAgain :: "operator \<Rightarrow> state \<Rightarrow> bool \<times> state" where
  "calculateAgain nextOperator s =
     (if previousOperator s = Equals \<or> nextOperator \<noteq> Equals then (False, s)
      else let newValue = OPERATIONS (previousOperator s) (Number (displayValue s))
                            (or_zero (previousValue s))
           in (True, s\<lparr>value := Some newValue, displayValue := String newValue,
                        isDirty := True, isPending := True\<rparr>))"

definition pendingCalculation :: "operator \<Rightarrow> state \<Rightarrow> bool \<times> state" where
  "pendingCalculation nextOperator s =
     (if nextOperator = Equals \<and> operator s \<noteq> Equals then (False, s)
      else (True, s\<lparr>operator := nextOperator\<rparr>))"

definition calculate :: "operator \<Rightarrow> state \<Rightarrow> state" where
  "calculate nextOperator s =
     (if operator s = Equals \<and> fst (calculateAgain nextOperator s)
      then snd (calculateAgain nextOperator s)
      else if isPending s \<and> fst (pendingCalculation nextOperator s)
      then snd (pendingCalculation nextOperator s)
      else
        let number = Number (displayValue s);
            s1 = (case value s of
                    None \<Rightarrow> s\<lparr>value := Some number\<rparr>
                  | Some v \<Rightarrow>
                      let newValue = OPERATIONS (operator s) (or_zero (Some v)) number
                      in s\<lparr>value := Some newValue, previousValue := Some number,
                           displayValue := String newValue, isDirty := True\<rparr>)
        in s1\<lparr>isPending := True, previousOperator := operator s,
               operator := nextOperator\<rparr>)"

definition handleDigit :: "string \<Rightarrow> state \<Rightarrow> state" where
  "handleDigit digit s =
     (let s1 = (if displayValue s = ''0'' then s\<lparr>displayValue := digit\<rparr>
                else if displayValue s = ''-0'' then s\<lparr>displayValue := ''-'' @ digit\<rparr>
                else if isPending s then s\<lparr>displayValue := digit\<rparr>
                else s\<lparr>displayValue := displayValue s @ digit\<rparr>)
      in s1\<lparr>isDirty := True, isPending := False\<rparr>)"

definition handleDot :: "state \<Rightarrow> state" where
  "handleDot s =
     (if isPending s then
        s\<lparr>displayValue := ''0.'', isDirty := True, isPending := False\<rparr>
      else if CHR ''.'' \<notin> set (displayValue s) then
        s\<lparr>displayValue := displayValue s @ ''.'', isDirty := True, isPending := False\<rparr>
      else s)"

definition handleBackspace :: "state \<Rightarrow> state" where
  "handleBackspace s =
     (let newCurrent = butlast (displayValue s)
      in if newCurrent = [] \<or> newCurrent = ''-'' then s\<lparr>displayValue := ''0''\<rparr>
         else s\<lparr>displayValue := newCurrent, isDirty := True\<rparr>)"

subsection \<open>Sequences of user actions\<close>

text \<open>
  One action is one click or key press, wired to its handler as in the component's
  buttons and in \<open>handleInput\<close>. A \<open>RangeError\<close> thrown by \<open>handlePercent\<close> leaves the
  handler before any cell is written, so the state stays as it was.
\<close>

datatype action =
  Reset | Clear | ChangeSign | Percent | Calculate operator | Digit string | Dot | Backspace

fun perform :: "action \<Rightarrow> state \<Rightarrow> state" where
  "perform Reset s = reset s"
| "perform Clear s = clear s"
| "perform ChangeSign s = changeSign s"
| "perform Percent s = (case handlePercent s of Inl e \<Rightarrow> s | Inr s' \<Rightarrow> s')"
| "perform (Calculate nextOperator) s = calculate nextOperator s"
| "perform (Digit d) s = handleDigit d s"
| "perform Dot s = handleDot s"
| "perform Backspace s = handleBackspace s"

definition run :: "action list \<Rightarrow> state \<Rightarrow> state" where
  "run as s = foldl (\<lambda>s a. perform a s) s as"

text \<open>The digit keys and buttons pass one of the ten digit characters.\<close>

fun valid :: "action \<Rightarrow> bool" where
  "valid (Digit d) = (length d = 1 \<and> list_all is_digit d)"
| "valid _ = True"

inductive reachable :: "state \<Rightarrow> bool" where
  reachable_initial: "reachable initial"
| reachable_perform: "reachable s \<Longrightarrow> valid a \<Longrightarrow> reachable (perform a s)"

subsection \<open>Notions of the specification\<close>

text \<open>The digits typed, with leading zeros collapsed; a lone zero is what is left of zeros
  only (and of nothing typed at all, the display of the initial state).\<close>

definition collapse_leading_zeros :: "string \<Rightarrow> string" where
  "collapse_leading_zeros ds =
     (let r = dropWhile (\<lambda>c. c = CHR ''0'') ds in if r = [] then ''0'' else r)"

text \<open>What the display keeps in every reachable state: it is not empty, what follows an
  optional leading minus sign is not empty and does not start with another minus sign,
  and there is at most one dot.\<close>

definition display_ok :: "string \<Rightarrow> bool" where
  "display_ok d =
     (d \<noteq> [] \<and>
      (let b = (if take 1 d = ''-'' then drop 1 d else d) in b \<noteq> [] \<and> take 1 b \<noteq> ''-'') \<and>
      count_list d (CHR ''.'') \<le> 1)"

text \<open>The number of characters after the first dot, none without a dot.\<close>

definition fraction_digits :: "string \<Rightarrow> nat" where
  "fraction_digits d = length (drop 1 (dropWhile (\<lambda>c. c \<noteq> CHR ''.'') d))"

text \<open>A plain decimal numeral: an optional minus sign, digits, and optionally a dot
  followed by digits only.\<close>

definition plain_decimal :: "string \<Rightarrow> bool" where
  "plain_decimal d =
     (let b = (if take 1 d = ''-'' then drop 1 d else d);
          r = dropWhile is_digit b
      in r = [] \<or> (take 1 r = ''.'' \<and> list_all is_digit (drop 1 r)))"

text \<open>Not empty and not starting with a minus sign.\<close>

definition starts_ok :: "string \<Rightarrow> bool" where
  "starts_ok b = (b \<noteq> [] \<and> hd b \<noteq> CHR ''-'')"

section \<open>Basic facts\<close>

lemma run_Nil: "run [] s = s"
  by (simp add: run_def)

lemma run_snoc: "run (as @ [a]) s = perform a (run as s)"
  by (simp add: run_def)

lemma reachable_run: "list_all valid as \<Longrightarrow> reachable (run as initial)"
proof (induction as rule: rev_induct)
  case Nil
  show ?case by (simp add: run_Nil reachable_initial)
next
  case (snoc a as)
  then show ?case by (simp add: run_snoc reachable_perform)
qed

section \<open>Operators: \<open>calculate\<close>\<close>

text \<open>
  C1 (apply and chain). When neither the repeat-equals branch nor the pending-operator
  swap applies, \<open>calculate nextOperator\<close> parses the display as a number. With no
  accumulated value yet it stores that number as the accumulated value, with no arithmetic.
  Otherwise it applies the current operator to (accumulated value or 0, number), stores the
  result as the accumulated value, remembers the number as previous operand, shows the
  formatted result and marks the state dirty. In both cases it sets \<open>isPending\<close>, moves the
  current operator into \<open>previousOperator\<close> and makes \<open>nextOperator\<close> the operator. In
  particular the keys 5, +, 3, = from the initial state end with the display \<open>8\<close>.
\<close>

theorem calculate_apply_and_chain:
  "(\<not> (operator s = Equals \<and> nextOperator = Equals \<and> previousOperator s \<noteq> Equals) \<and>
    \<not> (isPending s \<and> \<not> (nextOperator = Equals \<and> operator s \<noteq> Equals)) \<longrightarrow>
    calculate nextOperator s =
      (case value s of
         None \<Rightarrow>
           s\<lparr>value := Some (Number (displayValue s)), isPending := True,
             previousOperator := operator s, operator := nextOperator\<rparr>
       | Some v \<Rightarrow>
           s\<lparr>value := Some (OPERATIONS (operator s) (if falsy v then Finite False 0 else v)
                              (Number (displayValue s))),
             previousValue := Some (Number (displayValue s)),
             displayValue := String (OPERATIONS (operator s)
                              (if falsy v then Finite False 0 else v)
                              (Number (displayValue s))),
             isDirty := True, isPending := True,
             previousOperator := operator s, operator := nextOperator\<rparr>)) \<and>
   displayValue (run [Digit ''5'', Calculate Plus, Digit ''3'', Calculate Equals] initial)
     = ''8''"
proof -
  have "displayValue (run [Digit ''5'', Calculate Plus, Digit ''3'', Calculate Equals] initial)
     = ''8''"
    by code_simp
  then show ?thesis
    by (auto simp: calculate_def calculateAgain_def pendingCalculation_def or_zero_def Let_def
        split: option.splits)
qed

theorem calculate_apply_and_chain_witness:
  "\<not> (operator (run [Digit ''5'', Calculate Plus, Digit ''3''] initial) = Equals \<and>
      Equals = Equals \<and>
      previousOperator (run [Digit ''5'', Calculate Plus, Digit ''3''] initial) \<noteq> Equals) \<and>
   \<not> (isPending (run [Digit ''5'', Calculate Plus, Digit ''3''] initial) \<and>
      \<not> (Equals = Equals \<and>
         operator (run [Digit ''5'', Calculate Plus, Digit ''3''] initial) \<noteq> Equals)) \<and>
   calculate Equals (run [Digit ''5'', Calculate Plus, Digit ''3''] initial) =
     \<lparr>displayValue = ''8'', isDirty = True, isPending = True,
      value = Some (Finite False 8), operator = Equals,
      previousValue = Some (Finite False 3), previousOperator = Plus\<rparr>"
proof -
  let ?s = "run [Digit ''5'', Calculate Plus, Digit ''3''] initial"
  have h: "\<not> (operator ?s = Equals \<and> Equals = Equals \<and> previousOperator ?s \<noteq> Equals) \<and>
      \<not> (isPending ?s \<and> \<not> (Equals = Equals \<and> operator ?s \<noteq> Equals))"
    by code_simp
  have e: "(case value ?s of
         None \<Rightarrow>
           ?s\<lparr>value := Some (Number (displayValue ?s)), isPending := True,
             previousOperator := operator ?s, operator := Equals\<rparr>
       | Some v \<Rightarrow>
           ?s\<lparr>value := Some (OPERATIONS (operator ?s) (if falsy v then Finite False 0 else v)
                              (Number (displayValue ?s))),
             previousValue := Some (Number (displayValue ?s)),
             displayValue := String (OPERATIONS (operator ?s)
                              (if falsy v then Finite False 0 else v)
                              (Number (displayValue ?s))),
             isDirty := True, isPending := True,
             previousOperator := operator ?s, operator := Equals\<rparr>) =
     \<lparr>displayValue = ''8'', isDirty = True, isPending = True,
      value = Some (Finite False 8), operator = Equals,
      previousValue = Some (Finite False 3), previousOperator = Plus\<rparr>"
    by code_simp
  from calculate_apply_and_chain[of ?s Equals] h
  have "calculate Equals ?s = (case value ?s of
         None \<Rightarrow>
           ?s\<lparr>value := Some (Number (displayValue ?s)), isPending := True,
             previousOperator := operator ?s, operator := Equals\<rparr>
       | Some v \<Rightarrow>
           ?s\<lparr>value := Some (OPERATIONS (operator ?s) (if falsy v then Finite False 0 else v)
                              (Number (displayValue ?s))),
             previousValue := Some (Number (displayValue ?s)),
             displayValue := String (OPERATIONS (operator ?s)
                              (if falsy v then Finite False 0 else v)
                              (Number (displayValue ?s))),
             isDirty := True, isPending := True,
             previousOperator := operator ?s, operator := Equals\<rparr>)"
    by blast
  from this e have "calculate Equals ?s =
     \<lparr>displayValue = ''8'', isDirty = True, isPending = True,
      value = Some (Finite False 8), operator = Equals,
      previousValue = Some (Finite False 3), previousOperator = Plus\<rparr>"
    by (rule trans)
  with h show ?thesis by simp
qed

text \<open>
  C2 (repeat equals), as the code has it. When the operator is \<open>=\<close>, the previous operator
  is not \<open>=\<close> and \<open>=\<close> is pressed, \<open>calculate\<close> applies the previous operator to the parsed
  display and to \<open>previousValue || 0.0\<close>: the previous operand, or \<open>+0\<close> when that operand is
  \<open>null\<close>, a zero of either sign or \<open>NaN\<close>. The result becomes the accumulated value and, as
  text, the display; \<open>isDirty\<close> and \<open>isPending\<close> are set; nothing else changes. In
  particular the keys 2, +, 3, = show \<open>5\<close>, and one more = shows \<open>8\<close>.
\<close>

theorem calculate_repeat_equals:
  "(operator s = Equals \<and> previousOperator s \<noteq> Equals \<and> nextOperator = Equals \<longrightarrow>
    calculate nextOperator s =
      s\<lparr>value := Some (OPERATIONS (previousOperator s) (Number (displayValue s))
                         (or_zero (previousValue s))),
        displayValue := String (OPERATIONS (previousOperator s) (Number (displayValue s))
                         (or_zero (previousValue s))),
        isDirty := True, isPending := True\<rparr>) \<and>
   (previousValue s = Some x \<and> \<not> falsy x \<longrightarrow> or_zero (previousValue s) = x) \<and>
   displayValue (run [Digit ''2'', Calculate Plus, Digit ''3'', Calculate Equals] initial)
     = ''5'' \<and>
   displayValue (run [Digit ''2'', Calculate Plus, Digit ''3'', Calculate Equals,
                      Calculate Equals] initial) = ''8''"
proof -
  have "displayValue (run [Digit ''2'', Calculate Plus, Digit ''3'', Calculate Equals] initial)
     = ''5''"
    by code_simp
  moreover have "displayValue (run [Digit ''2'', Calculate Plus, Digit ''3'', Calculate Equals,
                      Calculate Equals] initial) = ''8''"
    by code_simp
  ultimately show ?thesis
    by (auto simp: calculate_def calculateAgain_def or_zero_def Let_def)
qed

theorem calculate_repeat_equals_witness:
  "operator (run [Digit ''2'', Calculate Plus, Digit ''3'', Calculate Equals] initial) = Equals \<and>
   previousOperator (run [Digit ''2'', Calculate Plus, Digit ''3'', Calculate Equals] initial)
     \<noteq> Equals \<and>
   previousValue (run [Digit ''2'', Calculate Plus, Digit ''3'', Calculate Equals] initial)
     = Some (Finite False 3) \<and>
   \<not> falsy (Finite False 3) \<and>
   calculate Equals (run [Digit ''2'', Calculate Plus, Digit ''3'', Calculate Equals] initial) =
     \<lparr>displayValue = ''8'', isDirty = True, isPending = True,
      value = Some (Finite False 8), operator = Equals,
      previousValue = Some (Finite False 3), previousOperator = Plus\<rparr>"
proof -
  let ?s = "run [Digit ''2'', Calculate Plus, Digit ''3'', Calculate Equals] initial"
  have h: "operator ?s = Equals \<and> previousOperator ?s \<noteq> Equals \<and>
      previousValue ?s = Some (Finite False 3) \<and> \<not> falsy (Finite False 3)"
    by code_simp
  have e: "?s\<lparr>value := Some (OPERATIONS (previousOperator ?s) (Number (displayValue ?s))
                         (or_zero (previousValue ?s))),
        displayValue := String (OPERATIONS (previousOperator ?s) (Number (displayValue ?s))
                         (or_zero (previousValue ?s))),
        isDirty := True, isPending := True\<rparr> =
     \<lparr>displayValue = ''8'', isDirty = True, isPending = True,
      value = Some (Finite False 8), operator = Equals,
      previousValue = Some (Finite False 3), previousOperator = Plus\<rparr>"
    by code_simp
  from calculate_repeat_equals[of ?s Equals] h
  have "calculate Equals ?s =
      ?s\<lparr>value := Some (OPERATIONS (previousOperator ?s) (Number (displayValue ?s))
                         (or_zero (previousValue ?s))),
        displayValue := String (OPERATIONS (previousOperator ?s) (Number (displayValue ?s))
                         (or_zero (previousValue ?s))),
        isDirty := True, isPending := True\<rparr>"
    by blast
  from this e have "calculate Equals ?s =
     \<lparr>displayValue = ''8'', isDirty = True, isPending = True,
      value = Some (Finite False 8), operator = Equals,
      previousValue = Some (Finite False 3), previousOperator = Plus\<rparr>"
    by (rule trans)
  with h show ?thesis by simp
qed

text \<open>
  C2 as the specification words it, with the previous operand itself as right operand,
  fails where \<open>|| 0.0\<close> replaces the operand. After the keys 5, /, sign, = the previous
  operand is \<open>-0\<close> and the display is \<open>-Infinity\<close>. Pressing = again divides by \<open>+0\<close> and
  shows \<open>-Infinity\<close>; dividing by the previous operand \<open>-0\<close> would show \<open>Infinity\<close>.
\<close>

theorem calculate_repeat_equals_counterexample:
  "operator (run [Digit ''5'', Calculate Divide, ChangeSign, Calculate Equals] initial)
     = Equals \<and>
   previousOperator (run [Digit ''5'', Calculate Divide, ChangeSign, Calculate Equals] initial)
     = Divide \<and>
   previousValue (run [Digit ''5'', Calculate Divide, ChangeSign, Calculate Equals] initial)
     = Some (Finite True 0) \<and>
   displayValue (run [Digit ''5'', Calculate Divide, ChangeSign, Calculate Equals] initial)
     = ''-Infinity'' \<and>
   String (OPERATIONS Divide (Number ''-Infinity'') (Finite True 0)) = ''Infinity'' \<and>
   displayValue (calculate Equals
     (run [Digit ''5'', Calculate Divide, ChangeSign, Calculate Equals] initial))
     = ''-Infinity''"
  by code_simp

text \<open>
  C4 (pending-operator swap). With \<open>isPending\<close> set, unless \<open>=\<close> is pressed while another
  operator is active, and when the repeat-equals branch does not apply,
  \<open>calculate nextOperator\<close> replaces the operator and changes nothing else: no arithmetic,
  and display, flags, accumulated value, previous operand and previous operator stay.
\<close>

theorem calculate_pending_swap:
  "isPending s \<and> \<not> (nextOperator = Equals \<and> operator s \<noteq> Equals) \<and>
   \<not> (operator s = Equals \<and> nextOperator = Equals \<and> previousOperator s \<noteq> Equals) \<longrightarrow>
   calculate nextOperator s = s\<lparr>operator := nextOperator\<rparr>"
  by (auto simp: calculate_def calculateAgain_def pendingCalculation_def)

theorem calculate_pending_swap_witness:
  "isPending (run [Digit ''4'', Calculate Plus] initial) \<and>
   \<not> (Minus = Equals \<and> operator (run [Digit ''4'', Calculate Plus] initial) \<noteq> Equals) \<and>
   \<not> (operator (run [Digit ''4'', Calculate Plus] initial) = Equals \<and> Minus = Equals \<and>
      previousOperator (run [Digit ''4'', Calculate Plus] initial) \<noteq> Equals) \<and>
   calculate Minus (run [Digit ''4'', Calculate Plus] initial) =
     \<lparr>displayValue = ''4'', isDirty = True, isPending = True,
      value = Some (Finite False 4), operator = Minus,
      previousValue = None, previousOperator = Equals\<rparr>"
proof -
  let ?s = "run [Digit ''4'', Calculate Plus] initial"
  have s: "?s = \<lparr>displayValue = ''4'', isDirty = True, isPending = True,
      value = Some (Finite False 4), operator = Plus,
      previousValue = None, previousOperator = Equals\<rparr>"
    by code_simp
  from calculate_pending_swap[of ?s Minus] show ?thesis
    unfolding s by simp
qed

text \<open>
  C9. Whatever branch \<open>calculate nextOperator\<close> takes and whatever the state before, the
  state after has \<open>isPending\<close> set and \<open>nextOperator\<close> as its operator.
\<close>

theorem calculate_sets_pending_and_operator:
  "isPending (calculate nextOperator s) \<and> operator (calculate nextOperator s) = nextOperator"
  by (auto simp: calculate_def calculateAgain_def pendingCalculation_def Let_def
      split: option.splits)

theorem calculate_sets_pending_and_operator_witness:
  "isPending (calculate Times initial) \<and> operator (calculate Times initial) = Times"
  using calculate_sets_pending_and_operator[of Times initial] by simp

section \<open>Typing: digits, sign, backspace\<close>

lemma collapse_snoc:
  "collapse_leading_zeros (ds @ [d]) =
     (if collapse_leading_zeros ds = ''0'' then [d] else collapse_leading_zeros ds @ [d])"
proof (cases "dropWhile (\<lambda>c. c = CHR ''0'') ds = []")
  case True
  then have "\<forall>c\<in>set ds. c = CHR ''0''" by simp
  then have "dropWhile (\<lambda>c. c = CHR ''0'') (ds @ [d]) = dropWhile (\<lambda>c. c = CHR ''0'') [d]"
    by simp
  with True show ?thesis by (simp add: collapse_leading_zeros_def)
next
  case False
  then obtain x where "x \<in> set ds" "x \<noteq> CHR ''0''" by auto
  then have app:
    "dropWhile (\<lambda>c. c = CHR ''0'') (ds @ [d]) = dropWhile (\<lambda>c. c = CHR ''0'') ds @ [d]"
    by simp
  have "hd (dropWhile (\<lambda>c. c = CHR ''0'') ds) \<noteq> CHR ''0''"
    using False hd_dropWhile[of "\<lambda>c. c = CHR ''0''" ds] by simp
  with False have "dropWhile (\<lambda>c. c = CHR ''0'') ds \<noteq> ''0''" by auto
  with False app show ?thesis by (simp add: collapse_leading_zeros_def)
qed

lemma collapse_digits:
  assumes "list_all is_digit ds"
  shows "list_all is_digit (collapse_leading_zeros ds)"
proof -
  have "set (dropWhile (\<lambda>c. c = CHR ''0'') ds) \<subseteq> set ds"
    by (auto dest: set_dropWhileD)
  with assms have "list_all is_digit (dropWhile (\<lambda>c. c = CHR ''0'') ds)"
    by (auto simp: list_all_iff)
  then show ?thesis by (simp add: collapse_leading_zeros_def is_digit_def)
qed

lemma typed_digits_state:
  "list_all is_digit ds \<Longrightarrow>
     displayValue (run (map (\<lambda>c. Digit [c]) ds) initial) = collapse_leading_zeros ds \<and>
     \<not> isPending (run (map (\<lambda>c. Digit [c]) ds) initial)"
proof (induction ds rule: rev_induct)
  case Nil
  show ?case by (simp add: run_Nil initial_def collapse_leading_zeros_def)
next
  case (snoc d ds)
  then have ih:
    "displayValue (run (map (\<lambda>c. Digit [c]) ds) initial) = collapse_leading_zeros ds"
    "\<not> isPending (run (map (\<lambda>c. Digit [c]) ds) initial)"
    by simp_all
  from snoc.prems have "list_all is_digit (collapse_leading_zeros ds)"
    by (simp add: collapse_digits)
  then have "collapse_leading_zeros ds \<noteq> ''-0''" by (auto simp: is_digit_def)
  with ih show ?case by (simp add: run_snoc handleDigit_def collapse_snoc)
qed

text \<open>
  C6. Typing digits only, from the initial state, shows the digits typed in order with
  leading zeros collapsed; the keys 1, 2, 3 show \<open>123\<close>. Every digit press marks the state
  dirty.
\<close>

theorem digits_concatenate:
  "(list_all is_digit ds \<longrightarrow>
      displayValue (run (map (\<lambda>c. Digit [c]) ds) initial) = collapse_leading_zeros ds) \<and>
   displayValue (run [Digit ''1'', Digit ''2'', Digit ''3''] initial) = ''123'' \<and>
   isDirty (handleDigit d s)"
proof -
  have "displayValue (run [Digit ''1'', Digit ''2'', Digit ''3''] initial) = ''123''"
    by code_simp
  moreover have "isDirty (handleDigit d s)" by (simp add: handleDigit_def)
  ultimately show ?thesis using typed_digits_state[of ds] by blast
qed

theorem digits_concatenate_witness:
  "list_all is_digit ''0070'' \<and>
   displayValue (run (map (\<lambda>c. Digit [c]) ''0070'') initial) = ''70'' \<and>
   collapse_leading_zeros ''0070'' = ''70''"
proof -
  have h: "list_all is_digit ''0070''" by code_simp
  have c: "collapse_leading_zeros ''0070'' = ''70''" by code_simp
  from digits_concatenate[of "''0070''"] h
  have "displayValue (run (map (\<lambda>c. Digit [c]) ''0070'') initial)
          = collapse_leading_zeros ''0070''"
    by blast
  with h c show ?thesis by simp
qed

lemma backspace_on_zero:
  "displayValue s = ''0'' \<or> displayValue s = ''-0'' \<Longrightarrow>
     displayValue (handleBackspace s) = ''0''"
  by (auto simp: handleBackspace_def)

lemma backspace_repeated:
  "displayValue s = ''0'' \<or> displayValue s = ''-0'' \<Longrightarrow>
     displayValue ((handleBackspace ^^ Suc n) s) = ''0''"
proof (induction n)
  case 0
  then show ?case by (simp add: backspace_on_zero)
next
  case (Suc n)
  then have "displayValue ((handleBackspace ^^ Suc n) s) = ''0''" by blast
  then have "displayValue (handleBackspace ((handleBackspace ^^ Suc n) s)) = ''0''"
    by (simp add: backspace_on_zero)
  then show ?case by simp
qed

text \<open>
  C7. \<open>handleBackspace\<close> drops the last character of the display. If nothing or only a
  minus sign is left, the display becomes \<open>0\<close> (and nothing else changes); otherwise the
  shortened display is kept and the state is marked dirty. So from a display \<open>0\<close> or \<open>-0\<close>
  any number of backspaces, one or more, leaves the display \<open>0\<close>, never empty.
\<close>

theorem backspace_trims:
  "handleBackspace s =
     (if butlast (displayValue s) = [] \<or> butlast (displayValue s) = ''-''
      then s\<lparr>displayValue := ''0''\<rparr>
      else s\<lparr>displayValue := butlast (displayValue s), isDirty := True\<rparr>) \<and>
   (displayValue s = ''0'' \<or> displayValue s = ''-0'' \<longrightarrow>
      displayValue ((handleBackspace ^^ Suc n) s) = ''0'' \<and>
      displayValue ((handleBackspace ^^ Suc n) s) \<noteq> [])"
proof -
  have "handleBackspace s =
     (if butlast (displayValue s) = [] \<or> butlast (displayValue s) = ''-''
      then s\<lparr>displayValue := ''0''\<rparr>
      else s\<lparr>displayValue := butlast (displayValue s), isDirty := True\<rparr>)"
    by (simp add: handleBackspace_def Let_def)
  then show ?thesis using backspace_repeated[of s n] by auto
qed

theorem backspace_trims_witness:
  "(displayValue (initial\<lparr>displayValue := ''-0''\<rparr>) = ''0'' \<or>
    displayValue (initial\<lparr>displayValue := ''-0''\<rparr>) = ''-0'') \<and>
   displayValue ((handleBackspace ^^ Suc 2) (initial\<lparr>displayValue := ''-0''\<rparr>)) = ''0'' \<and>
   handleBackspace (initial\<lparr>displayValue := ''12''\<rparr>) =
     initial\<lparr>displayValue := ''1'', isDirty := True\<rparr>"
proof -
  have h: "displayValue (initial\<lparr>displayValue := ''-0''\<rparr>) = ''0'' \<or>
    displayValue (initial\<lparr>displayValue := ''-0''\<rparr>) = ''-0''"
    by simp
  from backspace_trims[of "initial\<lparr>displayValue := ''-0''\<rparr>" 2] h
  have a: "displayValue ((handleBackspace ^^ Suc 2) (initial\<lparr>displayValue := ''-0''\<rparr>)) = ''0''"
    by blast
  from backspace_trims[of "initial\<lparr>displayValue := ''12''\<rparr>" 0]
  have b: "handleBackspace (initial\<lparr>displayValue := ''12''\<rparr>) =
     initial\<lparr>displayValue := ''1'', isDirty := True\<rparr>"
    by simp
  from h a b show ?thesis by blast
qed

text \<open>
  C8. When the sign key is pressed right after an operator was chosen (\<open>isPending\<close> set,
  operator not \<open>=\<close>), \<open>changeSign\<close> shows \<open>-0\<close>, marks the state dirty and clears
  \<open>isPending\<close>. The keys 4, +, sign end with display \<open>-0\<close> and \<open>isPending\<close> false.
\<close>

theorem changeSign_after_operator:
  "(isPending s \<and> operator s \<noteq> Equals \<longrightarrow>
      changeSign s = s\<lparr>displayValue := ''-0'', isDirty := True, isPending := False\<rparr>) \<and>
   displayValue (run [Digit ''4'', Calculate Plus, ChangeSign] initial) = ''-0'' \<and>
   isPending (run [Digit ''4'', Calculate Plus, ChangeSign] initial) = False"
proof -
  have "displayValue (run [Digit ''4'', Calculate Plus, ChangeSign] initial) = ''-0'' \<and>
        isPending (run [Digit ''4'', Calculate Plus, ChangeSign] initial) = False"
    by code_simp
  then show ?thesis by (simp add: changeSign_def)
qed

theorem changeSign_after_operator_witness:
  "isPending (run [Digit ''4'', Calculate Plus] initial) \<and>
   operator (run [Digit ''4'', Calculate Plus] initial) \<noteq> Equals \<and>
   changeSign (run [Digit ''4'', Calculate Plus] initial) =
     \<lparr>displayValue = ''-0'', isDirty = True, isPending = False,
      value = Some (Finite False 4), operator = Plus,
      previousValue = None, previousOperator = Equals\<rparr>"
proof -
  let ?s = "run [Digit ''4'', Calculate Plus] initial"
  have h: "isPending ?s \<and> operator ?s \<noteq> Equals" by code_simp
  have e: "?s\<lparr>displayValue := ''-0'', isDirty := True, isPending := False\<rparr> =
     \<lparr>displayValue = ''-0'', isDirty = True, isPending = False,
      value = Some (Finite False 4), operator = Plus,
      previousValue = None, previousOperator = Equals\<rparr>"
    by code_simp
  from changeSign_after_operator[of ?s] h
  have "changeSign ?s = ?s\<lparr>displayValue := ''-0'', isDirty := True, isPending := False\<rparr>"
    by blast
  from this e have "changeSign ?s =
     \<lparr>displayValue = ''-0'', isDirty = True, isPending = False,
      value = Some (Finite False 4), operator = Plus,
      previousValue = None, previousOperator = Equals\<rparr>"
    by (rule trans)
  with h show ?thesis by simp
qed

text \<open>
  C10, as the code has it. With \<open>isPending\<close> set and operator \<open>=\<close> (as right after pressing
  \<open>=\<close>), \<open>changeSign\<close> toggles the leading minus sign of the display and leaves \<open>isPending\<close>
  set, changing nothing else but the dirty flag (set unless the display was \<open>0\<close> or \<open>-0\<close>).
  A digit pressed next replaces the display by that digit, except when the toggled display
  is \<open>-0\<close>: then the digit takes the place of the zero and the minus sign stays.
\<close>

theorem changeSign_after_equals:
  "isPending s \<and> operator s = Equals \<longrightarrow>
     changeSign s =
       s\<lparr>displayValue := (if take 1 (displayValue s) = ''-'' then drop 1 (displayValue s)
                           else ''-'' @ displayValue s),
         isDirty := (isDirty s \<or> displayValue s \<notin> set [''0'', ''-0''])\<rparr> \<and>
     isPending (changeSign s) \<and>
     displayValue (handleDigit d (changeSign s)) =
       (if displayValue (changeSign s) = ''-0'' then ''-'' @ d else d)"
  by (auto simp: changeSign_def handleDigit_def Let_def)

theorem changeSign_after_equals_witness:
  "isPending (run [Digit ''2'', Calculate Plus, Digit ''3'', Calculate Equals] initial) \<and>
   operator (run [Digit ''2'', Calculate Plus, Digit ''3'', Calculate Equals] initial)
     = Equals \<and>
   displayValue (changeSign
     (run [Digit ''2'', Calculate Plus, Digit ''3'', Calculate Equals] initial)) = ''-5'' \<and>
   displayValue (handleDigit ''7'' (changeSign
     (run [Digit ''2'', Calculate Plus, Digit ''3'', Calculate Equals] initial))) = ''7''"
proof -
  let ?s = "run [Digit ''2'', Calculate Plus, Digit ''3'', Calculate Equals] initial"
  have h: "isPending ?s \<and> operator ?s = Equals" by code_simp
  have e: "displayValue (changeSign ?s) = ''-5''" by code_simp
  from changeSign_after_equals[of ?s "''7''"] h
  have "displayValue (handleDigit ''7'' (changeSign ?s)) =
       (if displayValue (changeSign ?s) = ''-0'' then ''-'' @ ''7'' else ''7'')"
    by blast
  with e have "displayValue (handleDigit ''7'' (changeSign ?s)) = ''7''" by simp
  with h e show ?thesis by simp
qed

text \<open>
  C10 as the specification words it fails when the display is \<open>0\<close>. Pressing \<open>=\<close> in the
  initial state leaves \<open>isPending\<close> set, operator \<open>=\<close> and display \<open>0\<close>; the sign key shows
  \<open>-0\<close> and keeps \<open>isPending\<close>; the digit 5 then shows \<open>-5\<close>, not \<open>5\<close>.
\<close>

theorem changeSign_after_equals_counterexample:
  "isPending (run [Calculate Equals] initial) \<and>
   operator (run [Calculate Equals] initial) = Equals \<and>
   displayValue (run [Calculate Equals] initial) = ''0'' \<and>
   displayValue (changeSign (run [Calculate Equals] initial)) = ''-0'' \<and>
   isPending (changeSign (run [Calculate Equals] initial)) \<and>
   displayValue (handleDigit ''5'' (changeSign (run [Calculate Equals] initial))) = ''-5'' \<and>
   displayValue (handleDigit ''5'' (changeSign (run [Calculate Equals] initial))) \<noteq> ''5''"
  by code_simp

section \<open>The shape of the display\<close>

lemma display_ok_iff:
  "display_ok d \<longleftrightarrow>
     (starts_ok d \<or> (\<exists>b. d = CHR ''-'' # b \<and> starts_ok b)) \<and> count_list d (CHR ''.'') \<le> 1"
  by (cases d; cases "tl d") (auto simp: display_ok_def starts_ok_def Let_def)

lemma is_digit_simps:
  "is_digit c \<Longrightarrow> c \<noteq> CHR ''-''" "is_digit c \<Longrightarrow> c \<noteq> CHR ''.''"
  by (auto simp: is_digit_def)

lemma digits_no_dot: "list_all is_digit ds \<Longrightarrow> count_list ds (CHR ''.'') = 0"
  by (induction ds) (auto simp: is_digit_simps)

lemma digits_starts_ok: "list_all is_digit ds \<Longrightarrow> ds \<noteq> [] \<Longrightarrow> starts_ok ds"
  by (cases ds) (auto simp: starts_ok_def is_digit_simps)

lemma digit_char_is_digit: "d < 10 \<Longrightarrow> is_digit (digit_char d)"
proof -
  assume "d < 10"
  then have "nat d < length ''0123456789''" by simp
  then have "''0123456789'' ! nat d \<in> set ''0123456789''" by (rule nth_mem)
  then show ?thesis by (simp only: is_digit_def digit_char_def)
qed

lemma digits_of_digits: "list_all is_digit (digits_of n) \<and> digits_of n \<noteq> []"
proof (induction n rule: digits_of.induct)
  case (1 n)
  show ?case
  proof (cases "n < 10")
    case True
    then show ?thesis by (simp add: digits_of.simps[of n] digit_char_is_digit)
  next
    case False
    moreover have "n mod 10 < 10" by simp
    ultimately show ?thesis
      using 1 by (simp add: digits_of.simps[of n] digit_char_is_digit)
  qed
qed

lemma replicate_zero_digits: "list_all is_digit (replicate n (CHR ''0''))"
  by (simp add: list_all_iff is_digit_def)

lemma take_digits: "list_all is_digit ds \<Longrightarrow> list_all is_digit (take n ds)"
  by (auto simp: list_all_iff dest: in_set_takeD)

lemma drop_digits: "list_all is_digit ds \<Longrightarrow> list_all is_digit (drop n ds)"
  by (auto simp: list_all_iff dest: in_set_dropD)

lemma starts_ok_append: "starts_ok xs \<Longrightarrow> starts_ok (xs @ ys)"
  by (cases xs) (auto simp: starts_ok_def)

lemma exponent_no_dot:
  "count_list (''e'' @ (if e < 0 then ''-'' else ''+'') @ digits_of \<bar>e\<bar>) (CHR ''.'') = 0"
  using digits_of_digits[of "\<bar>e\<bar>"] by (simp add: digits_no_dot)

lemma format_decimal_ok:
  assumes ds: "list_all is_digit ds" "ds \<noteq> []"
  shows "starts_ok (format_decimal ds n) \<and> count_list (format_decimal ds n) (CHR ''.'') \<le> 1"
proof -
  have nd: "count_list ds (CHR ''.'') = 0" using ds by (simp add: digits_no_dot)
  have z: "\<And>k. count_list (replicate k (CHR ''0'')) (CHR ''.'') = 0"
    by (simp add: digits_no_dot replicate_zero_digits)
  have t: "\<And>k. count_list (take k ds) (CHR ''.'') = 0"
    using ds by (simp add: digits_no_dot take_digits)
  have d: "\<And>k. count_list (drop k ds) (CHR ''.'') = 0"
    using ds by (simp add: digits_no_dot drop_digits)
  have s0: "starts_ok ds" using ds by (simp add: digits_starts_ok)
  have st: "\<And>k. 0 < k \<Longrightarrow> starts_ok (take k ds)"
    using ds by (cases ds) (auto simp: starts_ok_def is_digit_simps take_Cons')
  have ex: "count_list (''e'' @ (if n - 1 < 0 then ''-'' else ''+'') @ digits_of \<bar>n - 1\<bar>)
              (CHR ''.'') = 0"
    by (rule exponent_no_dot)
  consider (c1) "int (length ds) \<le> n \<and> n \<le> 21"
    | (c2) "\<not> (int (length ds) \<le> n \<and> n \<le> 21)" "0 < n \<and> n \<le> 21"
    | (c3) "\<not> (int (length ds) \<le> n \<and> n \<le> 21)" "\<not> (0 < n \<and> n \<le> 21)" "- 6 < n \<and> n \<le> 0"
    | (c4) "\<not> (int (length ds) \<le> n \<and> n \<le> 21)" "\<not> (0 < n \<and> n \<le> 21)"
          "\<not> (- 6 < n \<and> n \<le> 0)"
    by blast
  then show ?thesis
  proof cases
    case c1
    then have "format_decimal ds n = ds @ replicate (nat (n - int (length ds))) (CHR ''0'')"
      by (simp add: format_decimal_def Let_def)
    then show ?thesis using s0 nd z by (simp add: starts_ok_append)
  next
    case c2
    then have "format_decimal ds n = take (nat n) ds @ ''.'' @ drop (nat n) ds"
      by (simp add: format_decimal_def Let_def)
    moreover from c2 have "starts_ok (take (nat n) ds)" by (simp add: st)
    ultimately show ?thesis using t d by (simp add: starts_ok_append)
  next
    case c3
    then have "format_decimal ds n = ''0.'' @ replicate (nat (- n)) (CHR ''0'') @ ds"
      by (simp add: format_decimal_def Let_def)
    then show ?thesis using nd z by (simp add: starts_ok_def)
  next
    case c4
    then have f: "format_decimal ds n =
        (if int (length ds) = 1
         then ds @ (''e'' @ (if n - 1 < 0 then ''-'' else ''+'') @ digits_of \<bar>n - 1\<bar>)
         else take 1 ds @ ''.'' @ drop 1 ds @
              (''e'' @ (if n - 1 < 0 then ''-'' else ''+'') @ digits_of \<bar>n - 1\<bar>))"
      by (simp only: format_decimal_def Let_def c4 if_False)
    have "starts_ok (take 1 ds)" by (simp add: st)
    then show ?thesis
      unfolding f using s0 nd t[of 1] d[of 1] ex
      by (simp only: count_list_append starts_ok_append split: if_split) simp
  qed
qed

lemma String_ok: "display_ok (String x)"
proof (cases x)
  case NaN
  then show ?thesis by (simp add: display_ok_def)
next
  case (Infinity neg)
  then show ?thesis by (simp add: display_ok_def)
next
  case (Finite neg m)
  show ?thesis
  proof (cases "m = 0")
    case True
    with Finite show ?thesis by (simp add: display_ok_def)
  next
    case False
    obtain s0 t0 where a: "shortest m 1 = (s0, t0)" by (cases "shortest m 1")
    obtain s t where b: "strip_zeros s0 t0 = (s, t)" by (cases "strip_zeros s0 t0")
    let ?body = "format_decimal (digits_of s) (t + int (length (digits_of s)))"
    have body: "starts_ok ?body \<and> count_list ?body (CHR ''.'') \<le> 1"
      by (rule format_decimal_ok) (simp_all add: digits_of_digits)
    from False Finite a b have "String x = (if neg then ''-'' else []) @ ?body"
      by (simp add: Let_def)
    with body show ?thesis by (auto simp: display_ok_iff)
  qed
qed

lemma fixed_digits_shape:
  assumes ms: "list_all is_digit ms" "ms \<noteq> []" and f: "0 < f"
  defines "mz \<equiv> (if length ms \<le> f then replicate (f + 1 - length ms) (CHR ''0'') @ ms else ms)"
  shows "list_all is_digit mz \<and> f < length mz"
  using ms f by (auto simp: mz_def replicate_zero_digits)

lemma toFixed_ok: "toFixed x f = Inr str \<Longrightarrow> display_ok str"
proof (cases x)
  case NaN
  assume "toFixed x f = Inr str"
  with NaN have "str = String x" by (auto simp: toFixed_def split: if_splits)
  then show ?thesis by (simp add: String_ok)
next
  case (Infinity neg)
  assume "toFixed x f = Inr str"
  with Infinity have "str = String x" by (auto simp: toFixed_def split: if_splits)
  then show ?thesis by (simp only: String_ok)
next
  case (Finite neg m)
  assume a: "toFixed x f = Inr str"
  let ?sign = "(if neg \<and> m \<noteq> 0 then ''-'' else [])"
  let ?ms = "digits_of \<lfloor>m * 10 ^ f + 1 / 2\<rfloor>"
  let ?mz = "(if length ?ms \<le> f then replicate (f + 1 - length ?ms) (CHR ''0'') @ ?ms else ?ms)"
  have msd: "list_all is_digit ?ms" "?ms \<noteq> []" by (simp_all add: digits_of_digits)
  consider (big) "pow10 21 \<le> m" | (int) "\<not> pow10 21 \<le> m" "f = 0"
    | (frac) "\<not> pow10 21 \<le> m" "0 < f"
    by auto
  then show ?thesis
  proof cases
    case big
    with a Finite have s: "str = ?sign @ String (Finite False m)"
      by (auto simp: toFixed_def split: if_splits)
    from big have "m \<noteq> 0" by (auto simp: pow10_def)
    then have "String (Finite False m) =
        (case shortest m 1 of (s0, t0) \<Rightarrow> case strip_zeros s0 t0 of (s, t) \<Rightarrow>
           format_decimal (digits_of s) (t + int (length (digits_of s))))"
      by (simp add: Let_def)
    moreover obtain s0 t0 where "shortest m 1 = (s0, t0)" by (cases "shortest m 1")
    moreover obtain s t where "strip_zeros s0 t0 = (s, t)" by (cases "strip_zeros s0 t0")
    ultimately have b: "String (Finite False m) =
        format_decimal (digits_of s) (t + int (length (digits_of s)))"
      by simp
    have "starts_ok (format_decimal (digits_of s) (t + int (length (digits_of s)))) \<and>
          count_list (format_decimal (digits_of s) (t + int (length (digits_of s))))
            (CHR ''.'') \<le> 1"
      by (rule format_decimal_ok) (simp_all add: digits_of_digits)
    with b s show ?thesis by (auto simp: display_ok_iff)
  next
    case int
    with a Finite have "str = ?sign @ ?ms"
      by (auto simp: toFixed_def Let_def split: if_splits)
    moreover have "starts_ok ?ms" "count_list ?ms (CHR ''.'') = 0"
      using msd by (simp_all add: digits_starts_ok digits_no_dot)
    ultimately show ?thesis by (auto simp: display_ok_iff)
  next
    case frac
    with a Finite have s: "str = ?sign @ take (length ?mz - f) ?mz @ ''.'' @ drop (length ?mz - f) ?mz"
      by (auto simp: toFixed_def Let_def split: if_splits)
    have mz: "list_all is_digit ?mz \<and> f < length ?mz"
      using msd frac(2) by (rule fixed_digits_shape)
    then have "starts_ok (take (length ?mz - f) ?mz)"
      by (cases ?mz) (auto simp: starts_ok_def is_digit_simps take_Cons' simp del: replicate_Suc)
    then have "starts_ok (take (length ?mz - f) ?mz @ ''.'' @ drop (length ?mz - f) ?mz)"
      by (rule starts_ok_append)
    moreover have "count_list (take (length ?mz - f) ?mz) (CHR ''.'') = 0"
                  "count_list (drop (length ?mz - f) ?mz) (CHR ''.'') = 0"
      using mz by (simp_all only: digits_no_dot take_digits drop_digits)
    then have "count_list (take (length ?mz - f) ?mz @ ''.'' @ drop (length ?mz - f) ?mz)
                 (CHR ''.'') = 1"
      by (simp only: count_list_append) simp
    ultimately show ?thesis unfolding s by (auto simp: display_ok_iff simp del: append_assoc)
  qed
qed

lemma reset_ok: "display_ok (displayValue (reset s))"
  by (simp add: reset_def display_ok_def)

lemma clear_ok: "display_ok (displayValue (clear s))"
  by (simp add: clear_def display_ok_def Let_def)

lemma changeSign_ok:
  "display_ok (displayValue s) \<Longrightarrow> display_ok (displayValue (changeSign s))"
  by (cases "displayValue s")
     (auto simp: changeSign_def display_ok_iff starts_ok_def Let_def)

lemma handlePercent_ok:
  "display_ok (displayValue s) \<Longrightarrow> handlePercent s = Inr s' \<Longrightarrow>
     display_ok (displayValue s')"
  by (auto simp: handlePercent_def Let_def toFixed_ok split: if_splits sum.splits)

lemma calculate_ok:
  "display_ok (displayValue s) \<Longrightarrow> display_ok (displayValue (calculate nextOperator s))"
  by (auto simp: calculate_def calculateAgain_def pendingCalculation_def Let_def String_ok
      split: option.splits)

lemma handleDigit_ok:
  assumes "display_ok (displayValue s)" "length d = 1" "list_all is_digit d"
  shows "display_ok (displayValue (handleDigit d s))"
proof -
  from assms(2,3) obtain c where d: "d = [c]" "is_digit c"
    by (cases d) auto
  then have c: "c \<noteq> CHR ''-''" "c \<noteq> CHR ''.''" by (simp_all add: is_digit_simps)
  from assms(1) c show ?thesis unfolding d
    by (cases "displayValue s")
       (auto simp: handleDigit_def display_ok_iff starts_ok_def Let_def)
qed

lemma handleDot_ok:
  "display_ok (displayValue s) \<Longrightarrow> display_ok (displayValue (handleDot s))"
proof -
  assume a: "display_ok (displayValue s)"
  have "CHR ''.'' \<notin> set (displayValue s) \<Longrightarrow> count_list (displayValue s) (CHR ''.'') = 0"
    by (simp add: count_list_0_iff)
  with a show ?thesis
    by (cases "displayValue s")
       (auto simp: handleDot_def display_ok_iff starts_ok_def)
qed

lemma count_list_butlast: "count_list (butlast xs) x \<le> count_list xs x"
  by (induction xs) auto

lemma handleBackspace_ok:
  "display_ok (displayValue s) \<Longrightarrow> display_ok (displayValue (handleBackspace s))"
proof -
  assume a: "display_ok (displayValue s)"
  let ?n = "butlast (displayValue s)"
  show ?thesis
  proof (cases "?n = [] \<or> ?n = ''-''")
    case True
    then show ?thesis by (auto simp: handleBackspace_def display_ok_def)
  next
    case False
    have cnt: "count_list ?n (CHR ''.'') \<le> 1"
      using a count_list_butlast[of "displayValue s" "CHR ''.''"]
      by (simp add: display_ok_iff)
    have "starts_ok ?n \<or> (\<exists>b. ?n = CHR ''-'' # b \<and> starts_ok b)"
    proof (cases "displayValue s")
      case Nil
      with False show ?thesis by simp
    next
      case (Cons c cs)
      show ?thesis
      proof (cases cs)
        case Nil
        with Cons False show ?thesis by simp
      next
        case (Cons c' cs')
        with \<open>displayValue s = c # cs\<close> a False show ?thesis
          by (cases cs') (auto simp: display_ok_iff starts_ok_def)
      qed
    qed
    with cnt False show ?thesis
      by (simp add: handleBackspace_def display_ok_iff Let_def)
  qed
qed

lemma perform_ok:
  "display_ok (displayValue s) \<Longrightarrow> valid a \<Longrightarrow> display_ok (displayValue (perform a s))"
  by (cases a)
     (auto simp: reset_ok clear_ok changeSign_ok calculate_ok handleDigit_ok handleDot_ok
        handleBackspace_ok handlePercent_ok split: sum.splits)

lemma reachable_display_ok: "reachable s \<Longrightarrow> display_ok (displayValue s)"
proof (induction rule: reachable.induct)
  case reachable_initial
  show ?case by (simp add: initial_def display_ok_def)
next
  case (reachable_perform s a)
  then show ?case by (simp add: perform_ok)
qed

text \<open>
  C3, as far as it holds. In every state reachable from the initial state by user
  actions, the display is not empty, carries at most one leading minus sign (what follows
  it is not empty and does not start with a minus sign), and contains at most one dot.
\<close>

theorem display_shape_invariant:
  "reachable s \<longrightarrow>
     displayValue s \<noteq> [] \<and> count_list (displayValue s) (CHR ''.'') \<le> 1 \<and>
     display_ok (displayValue s)"
proof
  assume "reachable s"
  then have "display_ok (displayValue s)" by (rule reachable_display_ok)
  then show "displayValue s \<noteq> [] \<and> count_list (displayValue s) (CHR ''.'') \<le> 1 \<and>
     display_ok (displayValue s)"
    by (simp add: display_ok_def)
qed

theorem display_shape_invariant_witness:
  "reachable (run [Digit ''1'', Dot, Digit ''5'', ChangeSign, Dot] initial) \<and>
   displayValue (run [Digit ''1'', Dot, Digit ''5'', ChangeSign, Dot] initial) = ''-1.5'' \<and>
   display_ok ''-1.5''"
proof -
  let ?s = "run [Digit ''1'', Dot, Digit ''5'', ChangeSign, Dot] initial"
  have "list_all valid [Digit ''1'', Dot, Digit ''5'', ChangeSign, Dot]"
    by (simp add: is_digit_def)
  then have r: "reachable ?s" by (rule reachable_run)
  have e: "displayValue ?s = ''-1.5''" by code_simp
  from display_shape_invariant[of ?s] r have "display_ok (displayValue ?s)" by blast
  with e have "display_ok ''-1.5''" by simp
  with r e show ?thesis by simp
qed

text \<open>
  C3 as the specification words it fails twice. The keys 5, /, 0, = lead to the display
  \<open>Infinity\<close>, which does not parse to a finite number. The keys 5, +, clear lead to the
  display \<open>0\<close> in a state that is neither the initial state nor idle: the operator \<open>+\<close> is
  pending on the accumulated value 5.
\<close>

theorem display_invariant_counterexample:
  "reachable (run [Digit ''5'', Calculate Divide, Digit ''0'', Calculate Equals] initial) \<and>
   displayValue (run [Digit ''5'', Calculate Divide, Digit ''0'', Calculate Equals] initial)
     = ''Infinity'' \<and>
   Number ''Infinity'' = Infinity False \<and>
   reachable (run [Digit ''5'', Calculate Plus, Clear] initial) \<and>
   run [Digit ''5'', Calculate Plus, Clear] initial =
     \<lparr>displayValue = ''0'', isDirty = False, isPending = True,
      value = Some (Finite False 5), operator = Plus,
      previousValue = None, previousOperator = Equals\<rparr>"
proof -
  have "list_all valid [Digit ''5'', Calculate Divide, Digit ''0'', Calculate Equals]"
    by (simp add: is_digit_def)
  then have r1: "reachable (run [Digit ''5'', Calculate Divide, Digit ''0'', Calculate Equals]
                   initial)"
    by (rule reachable_run)
  have "list_all valid [Digit ''5'', Calculate Plus, Clear]"
    by (simp add: is_digit_def)
  then have r2: "reachable (run [Digit ''5'', Calculate Plus, Clear] initial)"
    by (rule reachable_run)
  have e1: "displayValue (run [Digit ''5'', Calculate Divide, Digit ''0'', Calculate Equals]
              initial) = ''Infinity''"
    by code_simp
  have e2: "Number ''Infinity'' = Infinity False" by code_simp
  have e3: "run [Digit ''5'', Calculate Plus, Clear] initial =
     \<lparr>displayValue = ''0'', isDirty = False, isPending = True,
      value = Some (Finite False 5), operator = Plus,
      previousValue = None, previousOperator = Equals\<rparr>"
    by code_simp
  from r1 r2 e1 e2 e3 show ?thesis by blast
qed

section \<open>Percent\<close>

lemma fraction_digits_split:
  "CHR ''.'' \<notin> set pre \<Longrightarrow> fraction_digits (pre @ CHR ''.'' # b) = length b"
proof -
  assume "CHR ''.'' \<notin> set pre"
  then have "dropWhile (\<lambda>c. c \<noteq> CHR ''.'') (pre @ CHR ''.'' # b) = CHR ''.'' # b"
    by (induction pre) auto
  then show ?thesis by (simp add: fraction_digits_def)
qed

lemma fraction_digits_none: "CHR ''.'' \<notin> set d \<Longrightarrow> fraction_digits d = 0"
  by (induction d) (auto simp: fraction_digits_def)

lemma digits_not_dot: "list_all is_digit ds \<Longrightarrow> CHR ''.'' \<notin> set ds"
proof
  assume "list_all is_digit ds" "CHR ''.'' \<in> set ds"
  then have "is_digit (CHR ''.'')" by (simp add: list_all_iff)
  then show False by (simp add: is_digit_def)
qed

lemma takeWhile_digits: "list_all is_digit (takeWhile is_digit b)"
  by (induction b) auto

lemma decimalPart_plain:
  assumes "plain_decimal d"
  shows "length (decimalPart d) = fraction_digits d"
proof -
  define sign where "sign = (if take 1 d = ''-'' then ''-'' else [])"
  define b where "b = (if take 1 d = ''-'' then drop 1 d else d)"
  define r where "r = dropWhile is_digit b"
  have d: "d = (sign @ takeWhile is_digit b) @ r"
    by (cases d) (auto simp: sign_def b_def r_def)
  have pre: "CHR ''.'' \<notin> set (sign @ takeWhile is_digit b)"
    using digits_not_dot[OF takeWhile_digits, of b] by (auto simp: sign_def)
  have dp: "decimalPart d = (if take 1 r = ''.'' then drop 1 r else r)"
    by (simp add: decimalPart_def Let_def r_def b_def)
  from assms have pd: "r = [] \<or> take 1 r = ''.''"
    by (auto simp: plain_decimal_def Let_def r_def b_def)
  show ?thesis
  proof (cases r)
    case Nil
    with d pre have "CHR ''.'' \<notin> set d" by simp
    then have "fraction_digits d = 0" by (rule fraction_digits_none)
    with Nil dp show ?thesis by simp
  next
    case (Cons c fp)
    with pd have c: "c = CHR ''.''" by simp
    with Cons dp have "decimalPart d = fp" by simp
    moreover have "fraction_digits ((sign @ takeWhile is_digit b) @ CHR ''.'' # fp) = length fp"
      using pre by (rule fraction_digits_split)
    with d Cons c have "fraction_digits d = length fp" by simp
    ultimately show ?thesis by simp
  qed
qed

lemma toFixed_fraction_digits:
  assumes "0 < f" "f \<le> 100" "m < 10 ^ 21"
  shows "\<exists>str. toFixed (Finite neg m) f = Inr str \<and> fraction_digits str = f"
proof -
  let ?sign = "(if neg \<and> m \<noteq> 0 then ''-'' else [])"
  let ?ms = "digits_of \<lfloor>m * 10 ^ f + 1 / 2\<rfloor>"
  let ?mz = "(if length ?ms \<le> f then replicate (f + 1 - length ?ms) (CHR ''0'') @ ?ms else ?ms)"
  have msd: "list_all is_digit ?ms" "?ms \<noteq> []" by (simp_all add: digits_of_digits)
  have mz: "list_all is_digit ?mz \<and> f < length ?mz"
    using msd assms(1) by (rule fixed_digits_shape)
  from assms have t: "toFixed (Finite neg m) f =
      Inr ((?sign @ take (length ?mz - f) ?mz) @ CHR ''.'' # drop (length ?mz - f) ?mz)"
    by (simp add: toFixed_def Let_def pow10_def)
  have "CHR ''.'' \<notin> set (take (length ?mz - f) ?mz)"
    using mz by (simp only: digits_not_dot take_digits not_False_eq_True)
  then have "CHR ''.'' \<notin> set (?sign @ take (length ?mz - f) ?mz)" by simp
  then have "fraction_digits ((?sign @ take (length ?mz - f) ?mz) @ CHR ''.'' #
                drop (length ?mz - f) ?mz) = length (drop (length ?mz - f) ?mz)"
    by (rule fraction_digits_split)
  also have "\<dots> = f" using mz by simp
  finally show ?thesis using t by blast
qed

text \<open>
  C5, as far as it holds. \<open>handlePercent\<close> parses the display to a number \<open>n\<close>. If \<open>n\<close> is
  zero the state is unchanged. Otherwise, when the display is a plain decimal numeral with
  at most 98 fractional digits and \<open>n / 100\<close> is finite and below \<open>10 ^ 21\<close> in magnitude,
  the display becomes \<open>n / 100\<close> in fixed notation with exactly two more fractional digits
  than the display had, \<open>isDirty\<close> is set and nothing else changes. The keys 5, 0, percent
  show \<open>0.50\<close>.
\<close>

theorem percent_two_more_digits:
  "(is_zero (Number (displayValue s)) \<longrightarrow> handlePercent s = Inr s) \<and>
   (\<not> is_zero (Number (displayValue s)) \<and> plain_decimal (displayValue s) \<and>
    fraction_digits (displayValue s) \<le> 98 \<and>
    divide_js (Number (displayValue s)) (Finite False 100) = Finite neg m \<and> m < 10 ^ 21 \<longrightarrow>
    (\<exists>str. toFixed (divide_js (Number (displayValue s)) (Finite False 100))
              (fraction_digits (displayValue s) + 2) = Inr str \<and>
           handlePercent s = Inr (s\<lparr>displayValue := str, isDirty := True\<rparr>) \<and>
           fraction_digits str = fraction_digits (displayValue s) + 2)) \<and>
   displayValue (run [Digit ''5'', Digit ''0'', Percent] initial) = ''0.50''"
proof -
  have ex: "displayValue (run [Digit ''5'', Digit ''0'', Percent] initial) = ''0.50''"
    by code_simp
  have z: "is_zero (Number (displayValue s)) \<longrightarrow> handlePercent s = Inr s"
    by (simp add: handlePercent_def Let_def)
  have nz: "\<exists>str. toFixed (divide_js (Number (displayValue s)) (Finite False 100))
              (fraction_digits (displayValue s) + 2) = Inr str \<and>
           handlePercent s = Inr (s\<lparr>displayValue := str, isDirty := True\<rparr>) \<and>
           fraction_digits str = fraction_digits (displayValue s) + 2"
    if h: "\<not> is_zero (Number (displayValue s))" "plain_decimal (displayValue s)"
      "fraction_digits (displayValue s) \<le> 98"
      "divide_js (Number (displayValue s)) (Finite False 100) = Finite neg m" "m < 10 ^ 21"
  proof -
    let ?f = "fraction_digits (displayValue s) + 2"
    from h(3) have f: "0 < ?f" "?f \<le> 100" by simp_all
    from toFixed_fraction_digits[OF f h(5), of neg]
    obtain str where str: "toFixed (Finite neg m) ?f = Inr str" "fraction_digits str = ?f"
      by blast
    have len: "length (decimalPart (displayValue s)) = fraction_digits (displayValue s)"
      using h(2) by (rule decimalPart_plain)
    from h(1) str(1) have "handlePercent s = Inr (s\<lparr>displayValue := str, isDirty := True\<rparr>)"
      by (simp add: handlePercent_def Let_def len h(4))
    with str show ?thesis by (simp add: h(4))
  qed
  from ex z nz show ?thesis by blast
qed

theorem percent_two_more_digits_witness:
  "\<not> is_zero (Number (displayValue (run [Digit ''1'', Dot, Digit ''5''] initial))) \<and>
   plain_decimal (displayValue (run [Digit ''1'', Dot, Digit ''5''] initial)) \<and>
   fraction_digits (displayValue (run [Digit ''1'', Dot, Digit ''5''] initial)) \<le> 98 \<and>
   divide_js (Number (displayValue (run [Digit ''1'', Dot, Digit ''5''] initial)))
     (Finite False 100) = Finite False (4323455642275676 / 288230376151711744) \<and>
   (4323455642275676 / 288230376151711744 :: rat) < 10 ^ 21 \<and>
   handlePercent (run [Digit ''1'', Dot, Digit ''5''] initial) =
     Inr ((run [Digit ''1'', Dot, Digit ''5''] initial)
            \<lparr>displayValue := ''0.015'', isDirty := True\<rparr>) \<and>
   fraction_digits ''0.015'' = fraction_digits ''1.5'' + 2"
proof -
  let ?s = "run [Digit ''1'', Dot, Digit ''5''] initial"
  have h: "\<not> is_zero (Number (displayValue ?s)) \<and> plain_decimal (displayValue ?s) \<and>
      fraction_digits (displayValue ?s) \<le> 98 \<and>
      divide_js (Number (displayValue ?s)) (Finite False 100) =
        Finite False (4323455642275676 / 288230376151711744)"
    by code_simp
  have b: "(4323455642275676 / 288230376151711744 :: rat) < 10 ^ 21" by simp
  have e: "toFixed (divide_js (Number (displayValue ?s)) (Finite False 100))
              (fraction_digits (displayValue ?s) + 2) = Inr ''0.015''"
    by code_simp
  have fd: "fraction_digits ''0.015'' = fraction_digits ''1.5'' + 2" by code_simp
  from percent_two_more_digits[of ?s False "4323455642275676 / 288230376151711744"] h b
  obtain str where str:
    "toFixed (divide_js (Number (displayValue ?s)) (Finite False 100))
       (fraction_digits (displayValue ?s) + 2) = Inr str"
    "handlePercent ?s = Inr (?s\<lparr>displayValue := str, isDirty := True\<rparr>)"
    by blast
  from str(1) e have "str = ''0.015''" by simp
  with str(2) have "handlePercent ?s = Inr (?s\<lparr>displayValue := ''0.015'', isDirty := True\<rparr>)"
    by simp
  with h b fd show ?thesis by blast
qed

text \<open>
  C5 as the specification words it fails outside that range, once for each bound.
  Typing 1 followed by 24 zeros and pressing percent shows \<open>1e+22\<close>: \<open>toFixed\<close> gives up
  fixed notation from \<open>10 ^ 21\<close> on, so no fractional digits are added. With 99 fractional
  digits in the display \<open>toFixed\<close> is asked for 101 digits and throws; the display is not
  replaced. And a display that is not a plain decimal numeral: the keys 1, /, 10000000, =
  show \<open>1e-7\<close>, of which \<open>decimalPart\<close> keeps \<open>e-7\<close>, three characters that are not
  fractional digits; percent then shows \<open>0.00000\<close>, five fractional digits where the
  display had none.
\<close>

theorem percent_counterexample:
  "displayValue (run (map (\<lambda>c. Digit [c]) ''1000000000000000000000000'') initial)
     = ''1000000000000000000000000'' \<and>
   \<not> is_zero (Number ''1000000000000000000000000'') \<and>
   handlePercent (run (map (\<lambda>c. Digit [c]) ''1000000000000000000000000'') initial) =
     Inr (initial\<lparr>displayValue := ''1e+22'', isDirty := True\<rparr>) \<and>
   fraction_digits ''1e+22'' \<noteq> fraction_digits ''1000000000000000000000000'' + 2 \<and>
   \<not> is_zero (Number (''0.'' @ replicate 99 (CHR ''1''))) \<and>
   handlePercent (initial\<lparr>displayValue := ''0.'' @ replicate 99 (CHR ''1'')\<rparr>)
     = Inl RangeError \<and>
   displayValue (run [Digit ''1'', Calculate Divide, Digit ''1'', Digit ''0'', Digit ''0'',
       Digit ''0'', Digit ''0'', Digit ''0'', Digit ''0'', Digit ''0'', Calculate Equals] initial)
     = ''1e-7'' \<and>
   \<not> is_zero (Number ''1e-7'') \<and>
   \<not> plain_decimal ''1e-7'' \<and>
   decimalPart ''1e-7'' = ''e-7'' \<and>
   handlePercent (run [Digit ''1'', Calculate Divide, Digit ''1'', Digit ''0'', Digit ''0'',
       Digit ''0'', Digit ''0'', Digit ''0'', Digit ''0'', Digit ''0'', Calculate Equals] initial) =
     Inr ((run [Digit ''1'', Calculate Divide, Digit ''1'', Digit ''0'', Digit ''0'',
       Digit ''0'', Digit ''0'', Digit ''0'', Digit ''0'', Digit ''0'', Calculate Equals] initial)
       \<lparr>displayValue := ''0.00000'', isDirty := True\<rparr>) \<and>
   fraction_digits ''0.00000'' \<noteq> fraction_digits ''1e-7'' + 2"
  by code_simp

end
